theory Spec2Isabelle
  imports Main "HOL-Library.Sublist"
begin

section \<open>The operating-system state the bootstrap routine acts on\<close>

text \<open>
  \<open>modal_app.py\<close> has two parts: the value \<open>image\<close>, a chain of build steps, and the
  function \<open>web\<close>, which runs four kinds of library calls in a fixed order
  (\<open>os.environ[k] = v\<close>, \<open>os.chdir\<close>, \<open>os.path.exists\<close> / \<open>os.symlink\<close>,
  \<open>subprocess.Popen\<close>). The calls act on the process and on the file system, so the
  model passes an explicit \<open>world\<close> through them. Every call either completes or
  raises; a raise is the value \<open>Some e\<close> next to the world reached so far.

  A path is kept in the store as the list of its components, so \<open>/root/app\<close> is
  \<open>[''root'', ''app'']\<close> and the root directory is \<open>[]\<close>, which is always there. An
  entry of the store is a file, a directory or a symbolic link with its text.

  The world has the process's environment and working directory, the store, the
  program names that a spawn can resolve on the search path (\<open>path_execs\<close>), the
  processes spawned so far and the trace of the effects performed so far, in order.
  A call that raises leaves the world as it found it and adds nothing to the trace.
  Permissions, resource limits and changes made by other processes between two
  statements are not part of the model.
\<close>

type_synonym path = "string list"

datatype node = File | Dir | Link string

datatype exc =
    FileNotFoundError
  | FileExistsError
  | NotADirectoryError
  | TooManyLinksError
  | IndexError

record proc =
  args :: "string list"
  penv :: "string \<rightharpoonup> string"
  pcwd :: path
  returncode :: "int option"

datatype event =
    SetEnv string string
  | Chdir path
  | Symlink string path
  | Spawn "string list"

record world =
  environ :: "string \<rightharpoonup> string"
  cwd :: path
  fs :: "path \<rightharpoonup> node"
  path_execs :: "string set"
  procs :: "proc list"
  trace :: "event list"

type_synonym stmt = "world \<Rightarrow> exc option \<times> world"

subsection \<open>Path strings\<close>

definition isabs :: "string \<Rightarrow> bool" where
  "isabs p = (case p of [] \<Rightarrow> False | c # _ \<Rightarrow> c = CHR ''/'')"

text \<open>The pieces of a path string between its slashes, empty pieces dropped.\<close>

definition path_parts :: "string \<Rightarrow> string list" where
  "path_parts p =
     filter (\<lambda>c. c \<noteq> [])
       (foldr (\<lambda>c acc. if c = CHR ''/'' then [] # acc
                        else (case acc of [] \<Rightarrow> [[c]] | a # as \<Rightarrow> (c # a) # as)) p [])"

text \<open>
  The components the kernel resolves for a path string. A trailing slash asks for a
  directory: it is read as a last component \<open>.\<close>, so that \<open>f/\<close> resolves only when
  \<open>f\<close> is a directory or a link that leads to one.
\<close>

definition components :: "string \<Rightarrow> string list" where
  "components p =
     (if p \<noteq> [] \<and> last p = CHR ''/'' then path_parts p @ [''.''] else path_parts p)"

subsection \<open>Path resolution\<close>

text \<open>
  \<open>walk n f cur cs\<close> resolves the components \<open>cs\<close> from the directory \<open>cur\<close> in the
  store \<open>f\<close>, following every symbolic link it meets, the last component included.
  \<open>n\<close> is the number of links it may still follow: the kernel gives up with ELOOP
  after \<open>MAXSYMLINKS\<close> of them. The result is the canonical path reached and what is
  there (a directory or a file). A link's text is read from the root when it is
  absolute and from the link's own directory otherwise; an empty text resolves to
  nothing.
\<close>

definition MAXSYMLINKS :: nat where
  "MAXSYMLINKS = 40"

fun walk :: "nat \<Rightarrow> (path \<rightharpoonup> node) \<Rightarrow> path \<Rightarrow> string list \<Rightarrow> exc + path \<times> node" where
  "walk n f cur [] = Inr (cur, Dir)"
| "walk n f cur (c # rest) =
     (if c = ''.'' then walk n f cur rest
      else if c = ''..'' then walk n f (butlast cur) rest
      else (case f (cur @ [c]) of
              None \<Rightarrow> Inl FileNotFoundError
            | Some Dir \<Rightarrow> walk n f (cur @ [c]) rest
            | Some File \<Rightarrow> if rest = [] then Inr (cur @ [c], File) else Inl NotADirectoryError
            | Some (Link t) \<Rightarrow>
                (case n of
                   0 \<Rightarrow> Inl TooManyLinksError
                 | Suc m \<Rightarrow>
                     if t = [] then Inl FileNotFoundError
                     else walk m f (if isabs t then [] else cur) (components t @ rest))))"

text \<open>\<open>stat\<close> follows links; it is what \<open>os.chdir\<close> and \<open>os.path.exists\<close> resolve with.\<close>

definition stat :: "world \<Rightarrow> string \<Rightarrow> exc + path \<times> node" where
  "stat w p =
     (if p = [] then Inl FileNotFoundError
      else walk MAXSYMLINKS (fs w) (if isabs p then [] else cwd w) (components p))"

text \<open>
  \<open>locate\<close> resolves the directory part of a path and looks the last component up
  without following it: the canonical place of the entry, and the entry if there is one.
  It is what \<open>os.symlink\<close> and \<open>os.path.lexists\<close> see of their argument.
\<close>

definition locate :: "world \<Rightarrow> string \<Rightarrow> exc + path \<times> node option" where
  "locate w p =
     (let cs = components p; start = (if isabs p then [] else cwd w) in
      if p = [] then Inl FileNotFoundError
      else if cs = [] \<or> last cs = ''.'' \<or> last cs = ''..'' then
        (case walk MAXSYMLINKS (fs w) start cs of
           Inl e \<Rightarrow> Inl e
         | Inr (q, nd) \<Rightarrow> Inr (q, Some nd))
      else
        (case walk MAXSYMLINKS (fs w) start (butlast cs) of
           Inl e \<Rightarrow> Inl e
         | Inr (d, nd) \<Rightarrow>
             if nd = Dir then Inr (d @ [last cs], fs w (d @ [last cs]))
             else Inl NotADirectoryError))"

subsection \<open>The library calls of \<open>web\<close>\<close>

text \<open>\<open>os.environ[k] = v\<close>.\<close>

definition environ_set :: "string \<Rightarrow> string \<Rightarrow> stmt" where
  "environ_set k v w =
     (None, w\<lparr>environ := (environ w)(k \<mapsto> v), trace := trace w @ [SetEnv k v]\<rparr>)"

text \<open>\<open>os.chdir(p)\<close>: the working directory becomes the directory \<open>p\<close> resolves to.\<close>

definition os_chdir :: "string \<Rightarrow> stmt" where
  "os_chdir p w =
     (case stat w p of
        Inl e \<Rightarrow> (Some e, w)
      | Inr (q, nd) \<Rightarrow>
          if nd = Dir then (None, w\<lparr>cwd := q, trace := trace w @ [Chdir q]\<rparr>)
          else (Some NotADirectoryError, w))"

text \<open>
  \<open>os.path.exists(p)\<close> is \<open>os.stat(p)\<close> with every \<open>OSError\<close> caught and answered
  \<open>False\<close>: a link whose target does not resolve does not exist for it.
\<close>

definition os_path_exists :: "world \<Rightarrow> string \<Rightarrow> bool" where
  "os_path_exists w p = (case stat w p of Inl e \<Rightarrow> False | Inr r \<Rightarrow> True)"

text \<open>\<open>os.path.lexists(p)\<close>: there is an entry at \<open>p\<close>, whatever it is.\<close>

definition os_path_lexists :: "world \<Rightarrow> string \<Rightarrow> bool" where
  "os_path_lexists w p =
     (case locate w p of Inl e \<Rightarrow> False | Inr (q, None) \<Rightarrow> False | Inr (q, Some nd) \<Rightarrow> True)"

text \<open>
  \<open>os.symlink(src, dst)\<close> writes a link at \<open>dst\<close> whose text is \<open>src\<close>. It raises
  \<open>FileExistsError\<close> when \<open>dst\<close> has an entry of any kind. Of \<open>src\<close> it only asks
  that it is not empty: whether \<open>src\<close> names anything is never looked at.
\<close>

definition os_symlink :: "string \<Rightarrow> string \<Rightarrow> stmt" where
  "os_symlink src dst w =
     (if src = [] then (Some FileNotFoundError, w) else
      case locate w dst of
        Inl e \<Rightarrow> (Some e, w)
      | Inr (q, Some nd) \<Rightarrow> (Some FileExistsError, w)
      | Inr (q, None) \<Rightarrow>
          (None, w\<lparr>fs := (fs w)(q \<mapsto> Link src), trace := trace w @ [Symlink src q]\<rparr>))"

text \<open>
  \<open>subprocess.Popen(cmd)\<close> starts \<open>cmd\<close> as a child that inherits the environment and
  the working directory, and returns at once: the handle's \<open>returncode\<close> is \<open>None\<close>
  until somebody polls or waits. When the program is not found it raises
  \<open>FileNotFoundError\<close>. Which program names resolve is the field \<open>path_execs\<close>.
\<close>

definition subprocess_Popen :: "string list \<Rightarrow> stmt" where
  "subprocess_Popen c w =
     (case c of
        [] \<Rightarrow> (Some IndexError, w)
      | prog # rest \<Rightarrow>
          if prog \<in> path_execs w then
            (None, w\<lparr>procs := procs w @
                        [\<lparr>args = c, penv = environ w, pcwd = cwd w, returncode = None\<rparr>],
                      trace := trace w @ [Spawn c]\<rparr>)
          else (Some FileNotFoundError, w))"

subsection \<open>Statements in sequence\<close>

text \<open>A block of statements runs in order and stops at the first one that raises.\<close>

fun run :: "stmt list \<Rightarrow> stmt" where
  "run [] w = (None, w)"
| "run (s # ss) w =
     (case s w of
        (None, w') \<Rightarrow> run ss w'
      | (Some e, w') \<Rightarrow> (Some e, w'))"

section \<open>The bootstrap routine \<open>web\<close>\<close>

definition cmd :: "string list" where
  "cmd = [''uvicorn'', ''release_server:app'', ''--host'', ''0.0.0.0'',
          ''--port'', ''8000'', ''--log-level'', ''info'']"

text \<open>
  The body of \<open>web\<close>, one entry for each statement of the source in its order; the
  \<open>if\<close> of the existence check is one statement.
\<close>

definition web_body :: "stmt list" where
  "web_body =
         [environ_set ''MODEL_FOLDER'' ''/root/wan_models'',
          environ_set ''CONFIG'' ''/root/app/configs/self_forcing_server_14b.yaml'',
          environ_set ''CUDA_VISIBLE_DEVICES'' ''0'',
          environ_set ''DO_COMPILE'' ''true'',
          os_chdir ''/root/app'',
          (\<lambda>w. if \<not> os_path_exists w ''checkpoints''
                then os_symlink ''/root/checkpoints'' ''checkpoints'' w
                else (None, w)),
          subprocess_Popen cmd]"

definition web :: stmt where
  "web = run web_body"

text \<open>
  The world in which the existence check of \<open>web\<close> is evaluated: the one the first
  five statements (the assignments and \<open>os.chdir\<close>) leave. \<open>reaches_check\<close> says
  that none of them raised.
\<close>

definition reaches_check :: "world \<Rightarrow> bool" where
  "reaches_check w = (fst (run (take 5 web_body) w) = None)"

definition at_check :: "world \<Rightarrow> world" where
  "at_check w = snd (run (take 5 web_body) w)"

text \<open>What one run added to the process table and to the trace.\<close>

definition new_procs :: "world \<Rightarrow> world \<Rightarrow> proc list" where
  "new_procs w w' = drop (length (procs w)) (procs w')"

definition new_events :: "world \<Rightarrow> world \<Rightarrow> event list" where
  "new_events w w' = drop (length (trace w)) (trace w')"

text \<open>
  The trace of the four assignments, the world they leave, and the values a fully
  populated environment holds.
\<close>

definition env_events :: "event list" where
  "env_events =
     [SetEnv ''MODEL_FOLDER'' ''/root/wan_models'',
      SetEnv ''CONFIG'' ''/root/app/configs/self_forcing_server_14b.yaml'',
      SetEnv ''CUDA_VISIBLE_DEVICES'' ''0'',
      SetEnv ''DO_COMPILE'' ''true'']"

definition after_env :: "world \<Rightarrow> world" where
  "after_env w =
     w\<lparr>environ := (environ w)(''MODEL_FOLDER'' \<mapsto> ''/root/wan_models'',
          ''CONFIG'' \<mapsto> ''/root/app/configs/self_forcing_server_14b.yaml'',
          ''CUDA_VISIBLE_DEVICES'' \<mapsto> ''0'', ''DO_COMPILE'' \<mapsto> ''true''),
       trace := trace w @ env_events\<rparr>"

definition fixed_env :: "(string \<times> string) list" where
  "fixed_env =
     [(''MODEL_FOLDER'', ''/root/wan_models''),
      (''CONFIG'', ''/root/app/configs/self_forcing_server_14b.yaml''),
      (''CUDA_VISIBLE_DEVICES'', ''0''),
      (''DO_COMPILE'', ''true'')]"

definition populated :: "(string \<rightharpoonup> string) \<Rightarrow> bool" where
  "populated e = list_all (\<lambda>(k, v). e k = Some v) fixed_env"

fun is_spawn :: "event \<Rightarrow> bool" where
  "is_spawn (Spawn c) = True"
| "is_spawn e = False"

fun is_symlink :: "event \<Rightarrow> bool" where
  "is_symlink (Symlink src q) = True"
| "is_symlink e = False"

section \<open>The image definition\<close>

text \<open>
  \<open>image\<close> is a chain of method calls on \<open>modal.Image\<close>; each call adds one build
  step, and the steps are built in the order of the chain. A step keeps the arguments
  the source passes.
\<close>

datatype step =
    From_registry string string
  | Entrypoint "string list"
  | Apt_install "string list"
  | Uv_sync string bool "string option"
  | Pip_install "string list" "string option" "string option"
  | Env "(string \<times> string) list"
  | Run_commands "string list" "string option"
  | Add_local_dir string string bool "string list"

definition cuda_version :: string where
  "cuda_version = ''12.8.1''"

definition flavor :: string where
  "flavor = ''devel''"

definition operating_sys :: string where
  "operating_sys = ''ubuntu22.04''"

definition cuda_tag :: string where
  "cuda_tag = cuda_version @ ''-'' @ flavor @ ''-'' @ operating_sys"

text \<open>
  The arguments, in the order of the constructors: \<open>From_registry tag add_python\<close>,
  \<open>Uv_sync uv_project_dir frozen gpu\<close>, \<open>Pip_install packages extra_options gpu\<close>,
  \<open>Run_commands commands gpu\<close>, \<open>Add_local_dir local_path remote_path copy ignore\<close>.
\<close>

definition image :: "step list" where
  "image =
     [From_registry (''nvidia/cuda:'' @ cuda_tag) ''3.11'',
      Entrypoint [],
      Apt_install [''ffmpeg'', ''git'', ''build-essential''],
      Uv_sync ''.'' True (Some ''b200''),
      Pip_install [''hf-transfer''] None None,
      Pip_install [''flash-attn''] (Some ''--no-build-isolation'') (Some ''b200''),
      Env [(''HF_HUB_ENABLE_HF_TRANSFER'', ''1'')],
      Run_commands
        [''huggingface-cli download Wan-AI/Wan2.1-T2V-1.3B --local-dir-use-symlinks False --local-dir /root/wan_models/Wan2.1-T2V-1.3B'']
        (Some ''b200''),
      Run_commands
        [''huggingface-cli download Wan-AI/Wan2.1-T2V-14B --local-dir-use-symlinks False --local-dir /root/wan_models/Wan2.1-T2V-14B'']
        (Some ''b200''),
      Run_commands
        [''huggingface-cli download krea/krea-realtime-video krea-realtime-video-14b.safetensors --local-dir /root/checkpoints'']
        (Some ''b200''),
      Add_local_dir ''.'' ''/root/app'' True
        [''__pycache__'', ''.git'', ''*.pyc'', ''outputs'', ''wan_models'', ''checkpoints'',
         ''.venv'', ''uv.lock'', ''*.lock'']]"

subsection \<open>The stages of the ordering policy\<close>

text \<open>
  The ordering policy names six stages. \<open>policy_stage\<close> reads the stage of a step off
  its kind and arguments, in the policy's words: the base image with the toolkit, the
  system packages, the dependencies installed from the frozen lock, an extension
  compiled with accelerator access, a download of a remote artifact, and the snapshot
  of the local source tree. A step the policy does not rank (the entrypoint, an
  environment setting, a package installed without accelerator access) is
  \<open>Unranked\<close>.
\<close>

datatype stage =
    Base_toolkit
  | System_packages
  | Locked_dependencies
  | Native_extension
  | Artifact_download
  | Source_snapshot
  | Unranked

fun policy_stage :: "step \<Rightarrow> stage" where
  "policy_stage (From_registry tag py) = Base_toolkit"
| "policy_stage (Apt_install pkgs) = System_packages"
| "policy_stage (Uv_sync dir frozen gpu) = (if frozen then Locked_dependencies else Unranked)"
| "policy_stage (Pip_install pkgs opts gpu) =
     (if gpu \<noteq> None then Native_extension else Unranked)"
| "policy_stage (Run_commands cs gpu) =
     (if cs \<noteq> [] \<and> list_all (prefix ''huggingface-cli download '') cs
      then Artifact_download else Unranked)"
| "policy_stage (Add_local_dir l r c ign) = Source_snapshot"
| "policy_stage (Entrypoint a) = Unranked"
| "policy_stage (Env kvs) = Unranked"

subsection \<open>What the source snapshot writes\<close>






section \<open>Example instances\<close>

text \<open>
  A fresh instance as the image leaves it: the application directory and the
  downloaded checkpoint and model directories, no alias yet.
\<close>

definition instance_fresh :: world where
  "instance_fresh =
     \<lparr>environ = Map.empty, cwd = [''root''],
      fs = [[''root''] \<mapsto> Dir,
            [''root'', ''app''] \<mapsto> Dir,
            [''root'', ''wan_models''] \<mapsto> Dir,
            [''root'', ''checkpoints''] \<mapsto> Dir,
            [''root'', ''checkpoints'', ''krea-realtime-video-14b.safetensors''] \<mapsto> File],
      path_execs = {''uvicorn''}, procs = [], trace = []\<rparr>"

text \<open>The same instance without the checkpoint directory \<open>/root/checkpoints\<close>.\<close>

definition instance_no_source :: world where
  "instance_no_source =
     \<lparr>environ = Map.empty, cwd = [''root''],
      fs = [[''root''] \<mapsto> Dir,
            [''root'', ''app''] \<mapsto> Dir,
            [''root'', ''wan_models''] \<mapsto> Dir],
      path_execs = {''uvicorn''}, procs = [], trace = []\<rparr>"

text \<open>An instance whose alias is there but whose checkpoint directory is gone.\<close>

definition instance_dangling :: world where
  "instance_dangling =
     \<lparr>environ = Map.empty, cwd = [''root''],
      fs = [[''root''] \<mapsto> Dir,
            [''root'', ''app''] \<mapsto> Dir,
            [''root'', ''wan_models''] \<mapsto> Dir,
            [''root'', ''app'', ''checkpoints''] \<mapsto> Link ''/root/checkpoints''],
      path_execs = {''uvicorn''}, procs = [], trace = []\<rparr>"

text \<open>A reused instance: the fresh instance after a first run of \<open>web\<close>.\<close>

definition instance_reused :: world where
  "instance_reused = snd (web instance_fresh)"



text \<open>
  The fresh instance started from another process state: another environment, another
  working directory, an earlier entry in the trace. The store and the programs are
  the same.
\<close>

definition instance_other :: world where
  "instance_other =
     instance_fresh\<lparr>environ := [''HOME'' \<mapsto> ''/root'', ''DO_COMPILE'' \<mapsto> ''false''],
                    cwd := [],
                    trace := [Chdir []]\<rparr>"


section \<open>Facts about the model\<close>

subsection \<open>Path resolution\<close>

text \<open>More fuel never changes a resolution that succeeded.\<close>

lemma walk_more_fuel: "walk n f cur cs = Inr r \<Longrightarrow> walk (Suc n) f cur cs = Inr r"
proof (induction n f cur cs rule: walk.induct)
  case (1 n f cur)
  then show ?case by simp
next
  case (2 n f cur c rest)
  show ?case
  proof (cases "c = ''.'' \<or> c = ''..''")
    case True
    with 2 show ?thesis by auto
  next
    case False
    then have c: "c \<noteq> ''.''" "c \<noteq> ''..''" by simp_all
    show ?thesis
    proof (cases "f (cur @ [c])")
      case None
      with c "2.prems" show ?thesis by simp
    next
      case (Some nd)
      show ?thesis
      proof (cases nd)
        case File
        with c Some "2.prems" show ?thesis by (simp split: if_splits)
      next
        case Dir
        with c Some "2.prems" "2.IH"(3) show ?thesis by simp
      next
        case (Link t)
        show ?thesis
        proof (cases n)
          case 0
          with c Some Link "2.prems" show ?thesis by simp
        next
          case (Suc m)
          with c Some Link "2.prems" have t: "t \<noteq> []"
            and w: "walk m f (if isabs t then [] else cur) (components t @ rest) = Inr r"
            by (simp_all split: if_splits)
          from "2.IH"(4) [OF c Some Link Suc t w] c Some Link Suc t show ?thesis by simp
        qed
      qed
    qed
  qed
qed



lemma components_app: "components ''/root/app'' = [''root'', ''app'']"
  by (simp add: components_def path_parts_def)

lemma components_checkpoints: "components ''checkpoints'' = [''checkpoints'']"
  by (simp add: components_def path_parts_def)

lemma components_source: "components ''/root/checkpoints'' = [''root'', ''checkpoints'']"
  by (simp add: components_def path_parts_def)

lemma exists_depends:
  "fs w1 = fs w2 \<Longrightarrow> cwd w1 = cwd w2 \<Longrightarrow> os_path_exists w1 p = os_path_exists w2 p"
  by (simp add: os_path_exists_def stat_def)

lemma locate_checkpoints:
  "locate w ''checkpoints'' = Inr (cwd w @ [''checkpoints''], fs w (cwd w @ [''checkpoints'']))"
  by (simp add: locate_def components_checkpoints isabs_def Let_def)

lemma exists_checkpoints:
  "os_path_exists w ''checkpoints'' =
     (case fs w (cwd w @ [''checkpoints'']) of
        None \<Rightarrow> False
      | Some (Link t) \<Rightarrow>
          t \<noteq> [] \<and> (case walk 39 (fs w) (if isabs t then [] else cwd w) (components t) of Inl e \<Rightarrow> False | Inr r \<Rightarrow> True)
      | Some nd \<Rightarrow> True)"
  by (simp add: os_path_exists_def stat_def components_checkpoints isabs_def MAXSYMLINKS_def
           split: option.splits node.splits)

lemma exists_link:
  assumes "fs w (cwd w @ [''checkpoints'']) = Some (Link t)"
  shows "os_path_exists w ''checkpoints'' =
           (t \<noteq> [] \<and> (\<exists>r. walk 39 (fs w) (if isabs t then [] else cwd w) (components t) = Inr r))"
proof (cases "walk 39 (fs w) (if isabs t then [] else cwd w) (components t)")
  case (Inl e)
  with assms show ?thesis by (simp add: exists_checkpoints)
next
  case (Inr r)
  with assms show ?thesis by (simp add: exists_checkpoints)
qed

lemma exists_entry:
  "os_path_exists w ''checkpoints'' \<Longrightarrow> fs w (cwd w @ [''checkpoints'']) \<noteq> None"
  by (simp add: exists_checkpoints split: option.splits)

lemma dangling_not_exists:
  assumes "fs w (cwd w @ [''checkpoints'']) = Some (Link t)" and "stat w t = Inl e"
  shows "\<not> os_path_exists w ''checkpoints''"
proof
  assume "os_path_exists w ''checkpoints''"
  with assms(1) obtain r where t: "t \<noteq> []"
    and w39: "walk 39 (fs w) (if isabs t then [] else cwd w) (components t) = Inr r"
    by (auto simp add: exists_link)
  from w39 have "walk (Suc 39) (fs w) (if isabs t then [] else cwd w) (components t) = Inr r"
    by (rule walk_more_fuel)
  with assms(2) t show False
    by (simp add: stat_def MAXSYMLINKS_def)
qed

lemma source_missing_alias_dangles:
  assumes "\<not> os_path_exists w ''/root/checkpoints''"
    and "fs w (cwd w @ [''checkpoints'']) = Some (Link ''/root/checkpoints'')"
  shows "\<not> os_path_exists w ''checkpoints''"
proof -
  from assms(1) obtain e where "stat w ''/root/checkpoints'' = Inl e"
    by (cases "stat w ''/root/checkpoints''") (simp_all add: os_path_exists_def)
  with assms(2) show ?thesis by (rule dangling_not_exists)
qed

lemma stat_absolute:
  assumes "fs w1 = fs w2"
  shows "stat w1 ''/root/app'' = stat w2 ''/root/app''"
  using assms by (simp add: stat_def isabs_def)

lemma stat_app_plain:
  "fs w [''root''] = Some Dir \<Longrightarrow> fs w [''root'', ''app''] = Some Dir \<Longrightarrow>
     stat w ''/root/app'' = Inr ([''root'', ''app''], Dir)"
  by (simp add: stat_def isabs_def components_app)

subsection \<open>Running the body of \<open>web\<close>\<close>

lemma run_single: "run [s] w = s w"
  by (simp split: prod.splits option.splits)

lemma run_append:
  "run (xs @ ys) w =
     (case run xs w of (None, w') \<Rightarrow> run ys w' | (Some e, w') \<Rightarrow> (Some e, w'))"
  by (induction xs arbitrary: w) (auto split: prod.splits option.splits)

lemma take5: "take 5 web_body = [environ_set ''MODEL_FOLDER'' ''/root/wan_models'',
          environ_set ''CONFIG'' ''/root/app/configs/self_forcing_server_14b.yaml'',
          environ_set ''CUDA_VISIBLE_DEVICES'' ''0'',
          environ_set ''DO_COMPILE'' ''true'',
          os_chdir ''/root/app'']"
  by (simp add: web_body_def)

lemma run_env4:
  "run (environ_set k1 v1 # environ_set k2 v2 # environ_set k3 v3 # environ_set k4 v4 # ss) w =
   run ss (w\<lparr>environ := (environ w)(k1 \<mapsto> v1, k2 \<mapsto> v2, k3 \<mapsto> v3, k4 \<mapsto> v4),
               trace := trace w @ [SetEnv k1 v1, SetEnv k2 v2, SetEnv k3 v3, SetEnv k4 v4]\<rparr>)"
  by (simp add: environ_set_def)

lemma stat_after_env: "stat (after_env w) p = stat w p"
  by (simp add: stat_def after_env_def)

lemma run_take5:
  "run (take 5 web_body) w =
     (case stat w ''/root/app'' of
        Inl e \<Rightarrow> (Some e, after_env w)
      | Inr (q, nd) \<Rightarrow>
          if nd = Dir then (None, (after_env w)\<lparr>cwd := q, trace := trace w @ env_events @ [Chdir q]\<rparr>)
          else (Some NotADirectoryError, after_env w))"
proof -
  have "run (take 5 web_body) w = run [os_chdir ''/root/app''] (after_env w)"
    unfolding take5 run_env4 by (simp add: after_env_def env_events_def)
  also have "\<dots> = os_chdir ''/root/app'' (after_env w)"
    by (rule run_single)
  finally show ?thesis
    by (simp add: os_chdir_def stat_after_env split: sum.splits prod.splits) (simp add: after_env_def)
qed

lemma web_split:
  "web w = (if reaches_check w then run (drop 5 web_body) (at_check w)
            else run (take 5 web_body) w)"
proof -
  have "web w = run (take 5 web_body @ drop 5 web_body) w"
    by (simp add: web_def)
  then show ?thesis
    unfolding run_append reaches_check_def at_check_def
    by (simp split: prod.splits option.splits)
qed

lemma drop5:
  "run (drop 5 web_body) w =
     (if os_path_exists w ''checkpoints'' then subprocess_Popen cmd w
      else case os_symlink ''/root/checkpoints'' ''checkpoints'' w of
             (None, w') \<Rightarrow> subprocess_Popen cmd w'
           | (Some e, w') \<Rightarrow> (Some e, w'))"
  by (simp add: web_body_def run_single split: prod.splits option.splits)

lemma symlink_checkpoints:
  "os_symlink ''/root/checkpoints'' ''checkpoints'' w =
     (case fs w (cwd w @ [''checkpoints'']) of
        Some nd \<Rightarrow> (Some FileExistsError, w)
      | None \<Rightarrow>
          (None, w\<lparr>fs := (fs w)(cwd w @ [''checkpoints''] \<mapsto> Link ''/root/checkpoints''),
                   trace := trace w @ [Symlink ''/root/checkpoints'' (cwd w @ [''checkpoints''])]\<rparr>))"
  by (simp add: os_symlink_def locate_checkpoints split: option.splits)

lemma Popen_cmd:
  "subprocess_Popen cmd w =
     (if ''uvicorn'' \<in> path_execs w then
        (None, w\<lparr>procs := procs w @ [\<lparr>args = cmd, penv = environ w, pcwd = cwd w, returncode = None\<rparr>],
                 trace := trace w @ [Spawn cmd]\<rparr>)
      else (Some FileNotFoundError, w))"
  by (simp add: subprocess_Popen_def cmd_def)

lemma cmd_literal:
  "[''uvicorn'', ''release_server:app'', ''--host'', ''0.0.0.0'',
    ''--port'', ''8000'', ''--log-level'', ''info''] = cmd"
  by (simp add: cmd_def)

lemma reaches_check_iff:
  "reaches_check w = (\<exists>q. stat w ''/root/app'' = Inr (q, Dir))"
  by (simp add: reaches_check_def run_take5 split: sum.splits prod.splits)

lemma at_check_eq:
  "at_check w =
     (if reaches_check w
      then (after_env w)\<lparr>cwd := fst (projr (stat w ''/root/app'')),
                         trace := trace w @ env_events @ [Chdir (fst (projr (stat w ''/root/app'')))]\<rparr>
      else after_env w)"
  by (auto simp add: reaches_check_iff at_check_def run_take5 split: sum.splits prod.splits)

lemma at_check_cwd:
  "reaches_check w \<Longrightarrow> cwd (at_check w) = fst (projr (stat w ''/root/app''))"
  by (simp add: at_check_eq)

lemma fst_take5:
  "\<not> reaches_check w \<Longrightarrow> run (take 5 web_body) w = (fst (run (take 5 web_body) w), after_env w)"
  by (auto simp add: reaches_check_iff run_take5 split: sum.splits prod.splits)

lemma web_not_reached:
  assumes "\<not> reaches_check w"
  shows "snd (web w) = after_env w" and "fst (web w) \<noteq> None"
proof -
  from assms have "web w = run (take 5 web_body) w"
    by (simp add: web_split)
  moreover from fst_take5 [OF assms] have "snd (run (take 5 web_body) w) = after_env w"
    by (metis snd_conv)
  ultimately show "snd (web w) = after_env w" and "fst (web w) \<noteq> None"
    using assms by (simp_all add: reaches_check_def)
qed

lemma not_reached_error:
  "\<not> reaches_check w \<Longrightarrow>
     fst (web w) = (case stat w ''/root/app'' of Inl e \<Rightarrow> Some e | Inr r \<Rightarrow> Some NotADirectoryError)"
  by (auto simp add: web_split reaches_check_iff run_take5 split: sum.splits prod.splits)

lemma at_check_fields:
  "environ (at_check w) = environ (after_env w)"
  "fs (at_check w) = fs w"
  "path_execs (at_check w) = path_execs w"
  "procs (at_check w) = procs w"
  by (simp_all add: at_check_eq after_env_def)

lemma at_check_trace:
  "reaches_check w \<Longrightarrow> trace (at_check w) = trace w @ env_events @ [Chdir (cwd (at_check w))]"
  by (simp add: at_check_eq)

lemma after_env_fields:
  "cwd (after_env w) = cwd w"
  "fs (after_env w) = fs w"
  "path_execs (after_env w) = path_execs w"
  "procs (after_env w) = procs w"
  "trace (after_env w) = trace w @ env_events"
  by (simp_all add: after_env_def)

lemma exists_at_check:
  "os_path_exists (at_check w) p = os_path_exists (w\<lparr>cwd := cwd (at_check w)\<rparr>) p"
  by (rule exists_depends) (simp_all add: at_check_fields)

lemma reaches_plain:
  assumes "fs w [''root''] = Some Dir" and "fs w [''root'', ''app''] = Some Dir"
  shows "reaches_check w" and "cwd (at_check w) = [''root'', ''app'']"
  using stat_app_plain [OF assms] by (simp_all add: reaches_check_iff at_check_eq)

lemma populated_after_env: "populated (environ (after_env w))"
  by (simp add: populated_def fixed_env_def after_env_def)

lemma env_events_fixed: "map (\<lambda>(k, v). SetEnv k v) fixed_env = env_events"
  by (simp add: fixed_env_def env_events_def)

lemma no_spawn_early:
  "i < length (env_events @ es) \<Longrightarrow> is_spawn ((env_events @ es) ! i) \<Longrightarrow> 4 \<le> i"
  by (cases "i < 4") (auto simp add: env_events_def nth_Cons split: nat.splits)

text \<open>
  Every run of \<open>web\<close> ends in one of four ways: \<open>os.chdir\<close> raises; the alias path exists
  and the run goes on to the spawn; the alias path does not exist for the check but has
  an entry, and \<open>os.symlink\<close> raises; or the alias path has no entry, the link is written
  and the run goes on to the spawn.
\<close>

lemma web_cases [case_names not_reached kept blocked linked]:
  obtains
    (not_reached) e where "\<not> reaches_check w" and "web w = (Some e, after_env w)"
  | (kept) "reaches_check w" and "os_path_exists (at_check w) ''checkpoints''"
      and "web w = subprocess_Popen cmd (at_check w)"
  | (blocked) nd where "reaches_check w" and "\<not> os_path_exists (at_check w) ''checkpoints''"
      and "fs w (cwd (at_check w) @ [''checkpoints'']) = Some nd"
      and "web w = (Some FileExistsError, at_check w)"
  | (linked) "reaches_check w" and "\<not> os_path_exists (at_check w) ''checkpoints''"
      and "fs w (cwd (at_check w) @ [''checkpoints'']) = None"
      and "web w = subprocess_Popen cmd
             ((at_check w)\<lparr>fs := (fs w)(cwd (at_check w) @ [''checkpoints''] \<mapsto> Link ''/root/checkpoints''),
                trace := trace (at_check w) @
                  [Symlink ''/root/checkpoints'' (cwd (at_check w) @ [''checkpoints''])]\<rparr>)"
proof (cases "reaches_check w")
  case False
  from web_not_reached [OF False] obtain e where "web w = (Some e, after_env w)"
    by (cases "web w") auto
  with False show ?thesis by (rule not_reached)
next
  case True
  show ?thesis
  proof (cases "os_path_exists (at_check w) ''checkpoints''")
    case ex: True
    with True have "web w = subprocess_Popen cmd (at_check w)"
      by (simp add: web_split drop5)
    with True ex show ?thesis by (rule kept)
  next
    case nex: False
    show ?thesis
    proof (cases "fs w (cwd (at_check w) @ [''checkpoints''])")
      case None
      with True nex have "web w = subprocess_Popen cmd
             ((at_check w)\<lparr>fs := (fs w)(cwd (at_check w) @ [''checkpoints''] \<mapsto> Link ''/root/checkpoints''),
                trace := trace (at_check w) @
                  [Symlink ''/root/checkpoints'' (cwd (at_check w) @ [''checkpoints''])]\<rparr>)"
        by (simp add: web_split drop5 symlink_checkpoints at_check_fields)
      with True nex None show ?thesis by (rule linked)
    next
      case (Some nd)
      with True nex have "web w = (Some FileExistsError, at_check w)"
        by (simp add: web_split drop5 symlink_checkpoints at_check_fields)
      with True nex Some show ?thesis by (rule blocked)
    qed
  qed
qed

lemmas outcome_simps =
  Popen_cmd at_check_fields at_check_trace after_env_fields new_procs_def new_events_def

subsection \<open>The snapshot of the local tree\<close>










subsection \<open>The example instances, evaluated\<close>

lemmas eval_defs =
  web_def web_body_def environ_set_def os_chdir_def os_path_exists_def os_symlink_def
  subprocess_Popen_def stat_def locate_def isabs_def MAXSYMLINKS_def Let_def
  components_app components_checkpoints components_source cmd_def

lemmas instance_defs =
  instance_fresh_def instance_no_source_def instance_dangling_def

lemma web_fresh:
  "web instance_fresh =
     (None,
      \<lparr>environ = [''MODEL_FOLDER'' \<mapsto> ''/root/wan_models'',
          ''CONFIG'' \<mapsto> ''/root/app/configs/self_forcing_server_14b.yaml'',
          ''CUDA_VISIBLE_DEVICES'' \<mapsto> ''0'', ''DO_COMPILE'' \<mapsto> ''true''],
       cwd = [''root'', ''app''],
       fs = (fs instance_fresh)([''root'', ''app'', ''checkpoints''] \<mapsto> Link ''/root/checkpoints''),
       path_execs = {''uvicorn''},
       procs = [\<lparr>args = cmd,
                 penv = [''MODEL_FOLDER'' \<mapsto> ''/root/wan_models'',
                   ''CONFIG'' \<mapsto> ''/root/app/configs/self_forcing_server_14b.yaml'',
                   ''CUDA_VISIBLE_DEVICES'' \<mapsto> ''0'', ''DO_COMPILE'' \<mapsto> ''true''],
                 pcwd = [''root'', ''app''], returncode = None\<rparr>],
       trace = env_events @ [Chdir [''root'', ''app''],
                 Symlink ''/root/checkpoints'' [''root'', ''app'', ''checkpoints''],
                 Spawn cmd]\<rparr>)"
  by (simp add: instance_fresh_def eval_defs env_events_def)

lemma web_no_source:
  "web instance_no_source =
     (None,
      instance_no_source
       \<lparr>environ := environ (after_env instance_no_source),
        cwd := [''root'', ''app''],
        fs := (fs instance_no_source)([''root'', ''app'', ''checkpoints''] \<mapsto> Link ''/root/checkpoints''),
        procs := [\<lparr>args = cmd, penv = environ (after_env instance_no_source),
                   pcwd = [''root'', ''app''], returncode = None\<rparr>],
        trace := env_events @ [Chdir [''root'', ''app''],
                   Symlink ''/root/checkpoints'' [''root'', ''app'', ''checkpoints''],
                   Spawn cmd]\<rparr>)"
  by (simp add: instance_no_source_def eval_defs env_events_def after_env_def)

lemma web_dangling:
  "web instance_dangling =
     (Some FileExistsError,
      instance_dangling
       \<lparr>environ := environ (after_env instance_dangling),
        cwd := [''root'', ''app''],
        trace := env_events @ [Chdir [''root'', ''app'']]\<rparr>)"
  by (simp add: instance_dangling_def eval_defs env_events_def after_env_def)

lemma reused_fields:
  "fs instance_reused =
     (fs instance_fresh)([''root'', ''app'', ''checkpoints''] \<mapsto> Link ''/root/checkpoints'')"
  "cwd instance_reused = [''root'', ''app'']"
  "path_execs instance_reused = {''uvicorn''}"
  "length (procs instance_reused) = 1"
  "length (trace instance_reused) = 7"
  by (simp_all add: instance_reused_def web_fresh env_events_def)

lemma reused_dirs:
  "fs instance_reused [''root''] = Some Dir"
  "fs instance_reused [''root'', ''app''] = Some Dir"
  "fs instance_reused [''root'', ''checkpoints''] = Some Dir"
  "fs instance_reused [''root'', ''app'', ''checkpoints''] = Some (Link ''/root/checkpoints'')"
  by (simp_all add: reused_fields instance_fresh_def)

lemma exists_reused: "os_path_exists (at_check instance_reused) ''checkpoints''"
proof -
  have "cwd (at_check instance_reused) = [''root'', ''app'']"
    by (simp add: reaches_plain reused_dirs)
  then show ?thesis
    by (simp add: exists_checkpoints at_check_fields reused_dirs isabs_def components_source)
qed

lemma web_reused:
  "web instance_reused =
     (None,
      instance_reused
       \<lparr>environ := environ (after_env instance_reused),
        cwd := [''root'', ''app''],
        procs := procs instance_reused @
                 [\<lparr>args = cmd, penv = environ (after_env instance_reused),
                   pcwd = [''root'', ''app''], returncode = None\<rparr>],
        trace := trace instance_reused @ env_events @ [Chdir [''root'', ''app''], Spawn cmd]\<rparr>)"
proof -
  have r: "reaches_check instance_reused" and c: "cwd (at_check instance_reused) = [''root'', ''app'']"
    by (simp_all add: reaches_plain reused_dirs)
  from r exists_reused have "web instance_reused = subprocess_Popen cmd (at_check instance_reused)"
    by (simp add: web_split drop5)
  with r c show ?thesis
    by (simp add: Popen_cmd at_check_fields reused_fields at_check_eq after_env_def)
qed

lemma web_other:
  "web instance_other =
     (None,
      instance_other
       \<lparr>environ := environ (after_env instance_other),
        cwd := [''root'', ''app''],
        fs := (fs instance_fresh)([''root'', ''app'', ''checkpoints''] \<mapsto> Link ''/root/checkpoints''),
        procs := [\<lparr>args = cmd, penv = environ (after_env instance_other),
                   pcwd = [''root'', ''app''], returncode = None\<rparr>],
        trace := [Chdir []] @ env_events @ [Chdir [''root'', ''app''],
                   Symlink ''/root/checkpoints'' [''root'', ''app'', ''checkpoints''],
                   Spawn cmd]\<rparr>)"
  by (simp add: instance_other_def instance_fresh_def eval_defs env_events_def after_env_def)

lemma instances_reach:
  "reaches_check instance_fresh" "cwd (at_check instance_fresh) = [''root'', ''app'']"
  "reaches_check instance_no_source" "cwd (at_check instance_no_source) = [''root'', ''app'']"
  "reaches_check instance_dangling" "cwd (at_check instance_dangling) = [''root'', ''app'']"
  "reaches_check instance_reused" "cwd (at_check instance_reused) = [''root'', ''app'']"
  by (simp_all add: reaches_plain instance_defs reused_dirs)

lemma not_exists_fresh: "\<not> os_path_exists (at_check instance_fresh) ''checkpoints''"
  by (simp add: exists_at_check instances_reach)
     (simp add: instance_fresh_def os_path_exists_def stat_def isabs_def MAXSYMLINKS_def
        components_checkpoints components_source)

lemma source_missing:
  "stat (at_check instance_no_source) ''/root/checkpoints'' = Inl FileNotFoundError"
  "stat (at_check instance_dangling) ''/root/checkpoints'' = Inl FileNotFoundError"
  "stat instance_no_source ''/root/checkpoints'' = Inl FileNotFoundError"
  by (simp_all add: stat_def isabs_def components_source at_check_fields instance_defs)

lemma instance_fields:
  "procs instance_fresh = []" "trace instance_fresh = []"
  "procs instance_no_source = []" "trace instance_no_source = []"
  "procs instance_dangling = []" "trace instance_dangling = []"
  "procs instance_other = []" "trace instance_other = [Chdir []]"
  "path_execs instance_no_source = {''uvicorn''}"
  by (simp_all add: instance_defs instance_other_def)


section \<open>The command line of the spawned server\<close>

text \<open>
  C1. Whenever \<open>web\<close> reaches the spawn, the command line of the spawned process is
  exactly \<open>uvicorn release_server:app --host 0.0.0.0 --port 8000 --log-level info\<close>:
  every process a run adds and every spawn it records carries this list, and a run
  that returns normally has added exactly one process, with this list.
\<close>

theorem web_spawn_cmdline:
  "(\<forall>p \<in> set (new_procs w (snd (web w))). args p = [''uvicorn'', ''release_server:app'', ''--host'', ''0.0.0.0'',
          ''--port'', ''8000'', ''--log-level'', ''info'']) \<and>
   (\<forall>c. Spawn c \<in> set (new_events w (snd (web w))) \<longrightarrow> c = [''uvicorn'', ''release_server:app'', ''--host'', ''0.0.0.0'',
          ''--port'', ''8000'', ''--log-level'', ''info'']) \<and>
   (fst (web w) = None \<longrightarrow> map args (new_procs w (snd (web w))) = [[''uvicorn'', ''release_server:app'', ''--host'', ''0.0.0.0'',
          ''--port'', ''8000'', ''--log-level'', ''info'']])"
proof (cases w rule: web_cases)
  case (not_reached e)
  then show ?thesis by (simp add: outcome_simps env_events_def)
next
  case kept
  then show ?thesis by (simp add: outcome_simps env_events_def cmd_literal)
next
  case (blocked nd)
  then show ?thesis by (simp add: outcome_simps env_events_def)
next
  case linked
  then show ?thesis by (simp add: outcome_simps env_events_def cmd_literal)
qed

text \<open>On the fresh instance the run returns normally and the one new process has the list.\<close>

theorem web_spawn_cmdline_witness:
  "fst (web instance_fresh) = None \<and>
   map args (new_procs instance_fresh (snd (web instance_fresh))) =
     [[''uvicorn'', ''release_server:app'', ''--host'', ''0.0.0.0'',
       ''--port'', ''8000'', ''--log-level'', ''info'']]"
  using web_spawn_cmdline [of instance_fresh]
  by (simp add: web_fresh new_procs_def cmd_def instance_fields)

section \<open>The environment is populated before the spawn\<close>

text \<open>
  C2. In every run of \<open>web\<close>, also one that raises later, the first four effects are
  the assignments of \<open>MODEL_FOLDER\<close>, \<open>CONFIG\<close>, \<open>CUDA_VISIBLE_DEVICES\<close> and
  \<open>DO_COMPILE\<close> to their fixed values; a spawn is never among the first four effects;
  the environment a spawned process inherits holds the four values; and so does the
  environment the run leaves.
\<close>

theorem web_env_before_spawn:
  "take 4 (new_events w (snd (web w))) = map (\<lambda>(k, v). SetEnv k v) fixed_env \<and>
   (\<forall>i < length (new_events w (snd (web w))). is_spawn (new_events w (snd (web w)) ! i) \<longrightarrow> 4 \<le> i) \<and>
   (\<forall>p \<in> set (new_procs w (snd (web w))). populated (penv p)) \<and>
   populated (environ (snd (web w)))"
proof -
  have len: "length env_events = 4" by (simp add: env_events_def)
  have "\<exists>es. new_events w (snd (web w)) = env_events @ es"
    by (cases w rule: web_cases) (simp_all add: outcome_simps)
  then obtain es where es: "new_events w (snd (web w)) = env_events @ es" ..
  have "\<forall>p \<in> set (new_procs w (snd (web w))). populated (penv p)"
    by (cases w rule: web_cases) (simp_all add: outcome_simps populated_after_env)
  moreover have "populated (environ (snd (web w)))"
    by (cases w rule: web_cases) (simp_all add: outcome_simps populated_after_env)
  ultimately show ?thesis
    unfolding es using len no_spawn_early by (simp add: env_events_fixed)
qed

text \<open>On the fresh instance the spawn is the seventh effect, after the four assignments.\<close>

theorem web_env_before_spawn_witness:
  "take 4 (new_events instance_fresh (snd (web instance_fresh))) = env_events \<and>
   is_spawn (new_events instance_fresh (snd (web instance_fresh)) ! 6) \<and>
   populated (penv (hd (new_procs instance_fresh (snd (web instance_fresh)))))"
  using web_env_before_spawn [of instance_fresh]
  by (simp add: web_fresh new_procs_def new_events_def instance_fields env_events_def
        populated_def fixed_env_def)

section \<open>The alias step is idempotent\<close>

text \<open>
  C3, as stated: in every state in which the path \<open>checkpoints\<close> already exists, running
  \<open>web\<close> again does not fail. It can: on the instance without \<open>/root/checkpoints\<close> the
  alias path has no entry and the first run returns normally; it leaves an entry at
  the alias path, and the second run raises \<open>FileExistsError\<close> and spawns nothing.
\<close>

theorem second_run_fails_on_dangling_alias:
  "\<not> os_path_lexists (at_check instance_no_source) ''checkpoints'' \<and>
   fst (web instance_no_source) = None \<and>
   os_path_lexists (at_check (snd (web instance_no_source))) ''checkpoints'' \<and>
   fst (web (snd (web instance_no_source))) = Some FileExistsError \<and>
   new_procs (snd (web instance_no_source)) (snd (web (snd (web instance_no_source)))) = []"
proof -
  have store: "fs (snd (web instance_no_source)) =
      (fs instance_no_source)([''root'', ''app'', ''checkpoints''] \<mapsto> Link ''/root/checkpoints'')"
    and first: "fst (web instance_no_source) = None"
    by (simp_all add: web_no_source)
  have before: "\<not> os_path_lexists (at_check instance_no_source) ''checkpoints''"
    by (simp add: os_path_lexists_def locate_checkpoints at_check_fields instances_reach)
       (simp add: instance_no_source_def)
  have "fs (snd (web instance_no_source)) [''root''] = Some Dir"
    and "fs (snd (web instance_no_source)) [''root'', ''app''] = Some Dir"
    by (simp_all add: store) (simp_all add: instance_no_source_def)
  then have r: "reaches_check (snd (web instance_no_source))"
    and c: "cwd (at_check (snd (web instance_no_source))) = [''root'', ''app'']"
    by (rule reaches_plain)+
  have entry: "fs (at_check (snd (web instance_no_source)))
        (cwd (at_check (snd (web instance_no_source))) @ [''checkpoints'']) =
      Some (Link ''/root/checkpoints'')"
    by (simp add: c at_check_fields store)
  have miss: "stat (at_check (snd (web instance_no_source))) ''/root/checkpoints'' =
      Inl FileNotFoundError"
    by (simp add: stat_def isabs_def components_source at_check_fields store)
       (simp add: instance_no_source_def)
  from entry miss have nex: "\<not> os_path_exists (at_check (snd (web instance_no_source))) ''checkpoints''"
    by (rule dangling_not_exists)
  from entry have lex: "os_path_lexists (at_check (snd (web instance_no_source))) ''checkpoints''"
    by (simp add: os_path_lexists_def locate_checkpoints)
  from r nex entry have "web (snd (web instance_no_source)) =
      (Some FileExistsError, at_check (snd (web instance_no_source)))"
    by (simp add: web_split drop5 symlink_checkpoints)
  then have "fst (web (snd (web instance_no_source))) = Some FileExistsError"
    and "new_procs (snd (web instance_no_source)) (snd (web (snd (web instance_no_source)))) = []"
    by (simp_all add: new_procs_def at_check_fields)
  with before first lex show ?thesis by simp
qed

text \<open>
  C3, amended. When the existence check of \<open>web\<close> finds the path \<open>checkpoints\<close> (looked
  up from the application directory as \<open>os.path.exists\<close> does: an entry that resolves),
  the run leaves the store as it is and creates no link, and it cannot fail at the
  alias step: it returns normally when the server program is found, and otherwise
  raises the spawn's own \<open>FileNotFoundError\<close>. Conversely a run creates the link, or
  changes the store at all, only when the check was reached, answered that the path
  does not exist, and the path had no entry.
\<close>

theorem alias_step_idempotent:
  "(reaches_check w \<and> os_path_exists (at_check w) ''checkpoints'' \<longrightarrow>
      fs (snd (web w)) = fs w \<and>
      \<not> list_ex is_symlink (new_events w (snd (web w))) \<and>
      fst (web w) = (if ''uvicorn'' \<in> path_execs w then None else Some FileNotFoundError)) \<and>
   (list_ex is_symlink (new_events w (snd (web w))) \<or> fs (snd (web w)) \<noteq> fs w \<longrightarrow>
      reaches_check w \<and> \<not> os_path_exists (at_check w) ''checkpoints'' \<and>
      fs w (cwd (at_check w) @ [''checkpoints'']) = None)"
proof (cases w rule: web_cases)
  case (not_reached e)
  then show ?thesis by (simp add: outcome_simps env_events_def)
next
  case kept
  then show ?thesis by (simp add: outcome_simps env_events_def)
next
  case (blocked nd)
  then show ?thesis by (simp add: outcome_simps env_events_def)
next
  case linked
  then show ?thesis by (simp add: outcome_simps env_events_def)
qed

text \<open>
  Two runs in a row on the fresh instance: the first finds the path absent and creates
  the link, the second finds it, returns normally and leaves the store alone.
\<close>

theorem alias_step_idempotent_witness:
  "fst (web instance_fresh) = None \<and>
   list_ex is_symlink (new_events instance_fresh (snd (web instance_fresh))) \<and>
   \<not> os_path_exists (at_check instance_fresh) ''checkpoints'' \<and>
   reaches_check (snd (web instance_fresh)) \<and>
   os_path_exists (at_check (snd (web instance_fresh))) ''checkpoints'' \<and>
   fst (web (snd (web instance_fresh))) = None \<and>
   fs (snd (web (snd (web instance_fresh)))) = fs (snd (web instance_fresh))"
proof -
  have first: "fst (web instance_fresh) = None"
    "list_ex is_symlink (new_events instance_fresh (snd (web instance_fresh)))"
    by (simp_all add: web_fresh new_events_def instance_fields env_events_def)
  from alias_step_idempotent [of instance_fresh] first(2)
  have absent: "\<not> os_path_exists (at_check instance_fresh) ''checkpoints''"
    by simp
  from alias_step_idempotent [of instance_reused] instances_reach(7) exists_reused
  have second: "fs (snd (web instance_reused)) = fs instance_reused"
    "fst (web instance_reused) = None"
    by (simp_all add: reused_fields)
  from first absent second instances_reach(7) exists_reused show ?thesis
    by (simp add: instance_reused_def)
qed

section \<open>A missing checkpoint directory\<close>

text \<open>
  C4, as stated: on every instance without \<open>/root/checkpoints\<close> the run fails at the
  alias step, before the server is spawned. It does not: on the instance below,
  \<open>/root/checkpoints\<close> is missing, the run returns normally and the server is spawned.
\<close>

theorem missing_source_spawns:
  "\<not> os_path_exists instance_no_source ''/root/checkpoints'' \<and>
   fst (web instance_no_source) = None \<and>
   map args (new_procs instance_no_source (snd (web instance_no_source))) =
     [[''uvicorn'', ''release_server:app'', ''--host'', ''0.0.0.0'',
       ''--port'', ''8000'', ''--log-level'', ''info'']]"
  by (simp add: web_no_source os_path_exists_def source_missing new_procs_def instance_fields
        cmd_def)

text \<open>
  C4, amended. \<open>os.symlink\<close> does not look at the target of the link it writes. When
  \<open>/root/checkpoints\<close> is missing and the alias path has no entry, the run writes the
  link, which dangles, and goes on to the spawn: it returns normally when the server
  program is found. The run fails at the alias step, with \<open>FileExistsError\<close> and before
  any spawn, when the alias path already holds the link to the missing directory.
\<close>

theorem missing_source_outcomes:
  assumes "reaches_check w" and "\<not> os_path_exists (at_check w) ''/root/checkpoints''"
  shows "(fs w (cwd (at_check w) @ [''checkpoints'']) = None \<longrightarrow>
            fs (snd (web w)) =
              (fs w)(cwd (at_check w) @ [''checkpoints''] \<mapsto> Link ''/root/checkpoints'') \<and>
            fst (web w) = (if ''uvicorn'' \<in> path_execs w then None else Some FileNotFoundError) \<and>
            (''uvicorn'' \<in> path_execs w \<longrightarrow> map args (new_procs w (snd (web w))) = [cmd])) \<and>
         (fs w (cwd (at_check w) @ [''checkpoints'']) = Some (Link ''/root/checkpoints'') \<longrightarrow>
            fst (web w) = Some FileExistsError \<and>
            new_procs w (snd (web w)) = [] \<and>
            fs (snd (web w)) = fs w)"
proof (cases w rule: web_cases)
  case (not_reached e)
  with assms(1) show ?thesis by simp
next
  case kept
  have "fs w (cwd (at_check w) @ [''checkpoints'']) \<noteq> None"
    using exists_entry [OF kept(2)] by (simp add: at_check_fields)
  moreover have "fs w (cwd (at_check w) @ [''checkpoints'']) \<noteq> Some (Link ''/root/checkpoints'')"
    using kept(2) source_missing_alias_dangles [OF assms(2)] by (auto simp add: at_check_fields)
  ultimately show ?thesis by auto
next
  case (blocked nd)
  then show ?thesis by (simp add: outcome_simps)
next
  case linked
  then show ?thesis by (simp add: outcome_simps)
qed

text \<open>Both cases occur: the instance without the directory, and the one with the dangling alias.\<close>

theorem missing_source_outcomes_witness:
  "reaches_check instance_no_source \<and>
   \<not> os_path_exists (at_check instance_no_source) ''/root/checkpoints'' \<and>
   fs instance_no_source (cwd (at_check instance_no_source) @ [''checkpoints'']) = None \<and>
   fst (web instance_no_source) = None \<and>
   map args (new_procs instance_no_source (snd (web instance_no_source))) = [cmd] \<and>
   reaches_check instance_dangling \<and>
   \<not> os_path_exists (at_check instance_dangling) ''/root/checkpoints'' \<and>
   fs instance_dangling (cwd (at_check instance_dangling) @ [''checkpoints'']) =
     Some (Link ''/root/checkpoints'') \<and>
   fst (web instance_dangling) = Some FileExistsError \<and>
   new_procs instance_dangling (snd (web instance_dangling)) = []"
proof -
  have h1: "\<not> os_path_exists (at_check instance_no_source) ''/root/checkpoints''"
    and h2: "\<not> os_path_exists (at_check instance_dangling) ''/root/checkpoints''"
    by (simp_all add: os_path_exists_def source_missing)
  have e1: "fs instance_no_source (cwd (at_check instance_no_source) @ [''checkpoints'']) = None"
    and e2: "fs instance_dangling (cwd (at_check instance_dangling) @ [''checkpoints'']) =
       Some (Link ''/root/checkpoints'')"
    by (simp_all add: instances_reach) (simp_all add: instance_defs)
  from missing_source_outcomes [OF instances_reach(3) h1]
       missing_source_outcomes [OF instances_reach(5) h2]
  show ?thesis
    using h1 h2 e1 e2 by (simp add: instances_reach instance_fields)
qed

section \<open>The spawn does not wait\<close>

text \<open>
  C5. \<open>web\<close> ends with the call of \<open>subprocess.Popen\<close>. A run never touches a process
  that was there before, adds at most one process, and leaves the \<open>returncode\<close> of
  what it adds unset, which is what a handle holds until somebody polls or waits. A
  run that returns normally has added exactly one process, and the spawn is its last
  effect.
\<close>

theorem web_spawn_nonblocking:
  "take (length (procs w)) (procs (snd (web w))) = procs w \<and>
   length (new_procs w (snd (web w))) \<le> 1 \<and>
   (\<forall>p \<in> set (new_procs w (snd (web w))). returncode p = None) \<and>
   (fst (web w) = None \<longrightarrow>
      length (new_procs w (snd (web w))) = 1 \<and>
      last (new_events w (snd (web w))) = Spawn cmd)"
  by (cases w rule: web_cases) (simp_all add: outcome_simps)

text \<open>On the fresh instance the run returns with the child's \<open>returncode\<close> unset.\<close>

theorem web_spawn_nonblocking_witness:
  "fst (web instance_fresh) = None \<and>
   map returncode (new_procs instance_fresh (snd (web instance_fresh))) = [None] \<and>
   last (new_events instance_fresh (snd (web instance_fresh))) = Spawn cmd"
  using web_spawn_nonblocking [of instance_fresh]
  by (simp add: web_fresh new_procs_def new_events_def instance_fields)

section \<open>The order of the build steps\<close>

text \<open>
  C6. The steps of \<open>image\<close> follow the ordering policy. Read by stage, the chain is: the
  base image with the toolkit (the \<open>devel\<close> flavour of the CUDA image), the system
  packages, the dependencies from the frozen lock, the one extension compiled with
  accelerator access (\<open>flash-attn\<close>), the three downloads, and the snapshot of the local
  tree as the last step. The three steps the policy does not rank stand between them.
\<close>

theorem image_ordering_policy:
  "map policy_stage image =
     [Base_toolkit, Unranked, System_packages, Locked_dependencies, Unranked,
      Native_extension, Unranked, Artifact_download, Artifact_download, Artifact_download,
      Source_snapshot] \<and>
   filter (\<lambda>s. s \<noteq> Unranked) (map policy_stage image) =
     [Base_toolkit, System_packages, Locked_dependencies, Native_extension,
      Artifact_download, Artifact_download, Artifact_download, Source_snapshot] \<and>
   hd image = From_registry ''nvidia/cuda:12.8.1-devel-ubuntu22.04'' ''3.11'' \<and>
   filter (\<lambda>s. policy_stage s = Native_extension) image =
     [Pip_install [''flash-attn''] (Some ''--no-build-isolation'') (Some ''b200'')] \<and>
   policy_stage (last image) = Source_snapshot"
  by (simp add: image_def cuda_tag_def cuda_version_def flavor_def operating_sys_def)

section \<open>The routine is deterministic\<close>

text \<open>
  C7. \<open>web\<close> takes no argument. Two runs on the same store with the same programs, from
  whatever environment, working directory and history, end the same way and perform
  the same effects in the same order: the same assignments, the same change of
  directory, the same decision on the alias and the same command. They leave the same
  store, the same values of the four variables and, once the check is reached, the
  same working directory.
\<close>

theorem web_deterministic:
  assumes "fs w1 = fs w2" and "path_execs w1 = path_execs w2"
  shows "fst (web w1) = fst (web w2) \<and>
         new_events w1 (snd (web w1)) = new_events w2 (snd (web w2)) \<and>
         map args (new_procs w1 (snd (web w1))) = map args (new_procs w2 (snd (web w2))) \<and>
         map pcwd (new_procs w1 (snd (web w1))) = map pcwd (new_procs w2 (snd (web w2))) \<and>
         fs (snd (web w1)) = fs (snd (web w2)) \<and>
         (reaches_check w1 \<longrightarrow> cwd (snd (web w1)) = cwd (snd (web w2))) \<and>
         list_all (\<lambda>(k, v). environ (snd (web w1)) k = environ (snd (web w2)) k) fixed_env"
proof -
  from assms(1) have st: "stat w1 ''/root/app'' = stat w2 ''/root/app''"
    by (rule stat_absolute)
  then have rc: "reaches_check w1 = reaches_check w2"
    by (simp add: reaches_check_iff)
  have cw: "cwd (at_check w1) = cwd (at_check w2)" if "reaches_check w1"
    using that rc st by (simp add: at_check_cwd)
  have ex: "os_path_exists (at_check w1) ''checkpoints'' = os_path_exists (at_check w2) ''checkpoints''"
    if "reaches_check w1"
    using cw [OF that] assms(1) by (intro exists_depends) (simp_all add: at_check_fields)
  show ?thesis
  proof (cases w1 rule: web_cases)
    case (not_reached e)
    with rc have nr2: "\<not> reaches_check w2" by simp
    from not_reached_error [OF not_reached(1)] not_reached_error [OF nr2] st
    have "fst (web w1) = fst (web w2)" by simp
    moreover from web_not_reached(1) [OF not_reached(1)] web_not_reached(1) [OF nr2]
    have "snd (web w1) = after_env w1" "snd (web w2) = after_env w2" by simp_all
    ultimately show ?thesis
      using assms not_reached(1)
      by (simp add: after_env_fields new_events_def new_procs_def after_env_def fixed_env_def)
  next
    case kept
    with rc ex have r2: "reaches_check w2" and e2: "os_path_exists (at_check w2) ''checkpoints''"
      by simp_all
    then have "web w2 = subprocess_Popen cmd (at_check w2)"
      by (simp add: web_split drop5)
    with kept assms cw [OF kept(1)] r2 show ?thesis
      by (simp add: outcome_simps after_env_def fixed_env_def)
  next
    case (blocked nd)
    with rc ex have r2: "reaches_check w2" and n2: "\<not> os_path_exists (at_check w2) ''checkpoints''" by simp_all
    from blocked(3) assms(1) cw [OF blocked(1)]
    have "fs (at_check w2) (cwd (at_check w2) @ [''checkpoints'']) = Some nd"
      by (simp add: at_check_fields)
    with r2 n2 have "web w2 = (Some FileExistsError, at_check w2)"
      by (simp add: web_split drop5 symlink_checkpoints)
    with blocked assms cw [OF blocked(1)] r2 show ?thesis
      by (simp add: outcome_simps after_env_def fixed_env_def)
  next
    case linked
    with rc ex have r2: "reaches_check w2" and n2: "\<not> os_path_exists (at_check w2) ''checkpoints''" by simp_all
    from linked(3) assms(1) cw [OF linked(1)]
    have "fs (at_check w2) (cwd (at_check w2) @ [''checkpoints'']) = None"
      by (simp add: at_check_fields)
    with r2 n2 have "web w2 = subprocess_Popen cmd
             ((at_check w2)\<lparr>fs := (fs w2)(cwd (at_check w2) @ [''checkpoints''] \<mapsto> Link ''/root/checkpoints''),
                trace := trace (at_check w2) @
                  [Symlink ''/root/checkpoints'' (cwd (at_check w2) @ [''checkpoints''])]\<rparr>)"
      by (simp add: web_split drop5 symlink_checkpoints at_check_fields)
    with linked assms cw [OF linked(1)] r2 show ?thesis
      by (simp add: outcome_simps after_env_def fixed_env_def)
  qed
qed

text \<open>Two starts of the fresh instance that differ in environment and working directory.\<close>

theorem web_deterministic_witness:
  "fs instance_fresh = fs instance_other \<and>
   path_execs instance_fresh = path_execs instance_other \<and>
   environ instance_fresh ''HOME'' = None \<and>
   environ instance_other ''HOME'' = Some ''/root'' \<and>
   cwd instance_fresh = [''root''] \<and> cwd instance_other = [] \<and>
   fst (web instance_other) = None \<and>
   new_events instance_fresh (snd (web instance_fresh)) =
     new_events instance_other (snd (web instance_other))"
proof -
  have same: "fs instance_fresh = fs instance_other"
    "path_execs instance_fresh = path_execs instance_other"
    by (simp_all add: instance_other_def)
  from web_deterministic [OF same] same show ?thesis
    by (simp add: web_other) (simp add: instance_other_def instance_fresh_def)
qed

section \<open>What a run may change\<close>

text \<open>
  C8, as stated: every run spawns exactly one child process. A run that raises spawns
  none: on the instance with the dangling alias the run raises \<open>FileExistsError\<close> and
  the process table is as before.
\<close>

theorem failed_run_spawns_nothing:
  "fst (web instance_dangling) = Some FileExistsError \<and>
   length (new_procs instance_dangling (snd (web instance_dangling))) = 0"
  by (simp add: web_dangling new_procs_def instance_fields)

text \<open>
  C8, amended. A run changes the environment at the four named variables only; it
  leaves the found programs as they are; it leaves the store as it is or adds one
  link to \<open>/root/checkpoints\<close> at a path that had no entry, and creates at most one
  link; it keeps the processes that were there and adds exactly one when it returns
  normally and none when it raises.
\<close>

theorem web_frame:
  "(\<forall>k. k \<notin> fst ` set fixed_env \<longrightarrow> environ (snd (web w)) k = environ w k) \<and>
   path_execs (snd (web w)) = path_execs w \<and>
   (fs (snd (web w)) = fs w \<or>
    (\<exists>q. fs w q = None \<and> fs (snd (web w)) = (fs w)(q \<mapsto> Link ''/root/checkpoints''))) \<and>
   length (filter is_symlink (new_events w (snd (web w)))) \<le> 1 \<and>
   take (length (procs w)) (procs (snd (web w))) = procs w \<and>
   length (new_procs w (snd (web w))) = (if fst (web w) = None then 1 else 0)"
proof (cases w rule: web_cases)
  case (not_reached e)
  then show ?thesis by (simp add: outcome_simps env_events_def after_env_def fixed_env_def)
next
  case kept
  then show ?thesis by (simp add: outcome_simps env_events_def after_env_def fixed_env_def)
next
  case (blocked nd)
  then show ?thesis by (simp add: outcome_simps env_events_def after_env_def fixed_env_def)
next
  case linked
  then show ?thesis by (auto simp add: outcome_simps env_events_def after_env_def fixed_env_def)
qed

text \<open>
  A variable outside the four is kept; the fresh instance gets one link and one process;
  the failing run adds no process.
\<close>

theorem web_frame_witness:
  "environ instance_other ''HOME'' = Some ''/root'' \<and>
   environ (snd (web instance_other)) ''HOME'' = Some ''/root'' \<and>
   fs instance_fresh [''root'', ''app'', ''checkpoints''] = None \<and>
   fs (snd (web instance_fresh)) =
     (fs instance_fresh)([''root'', ''app'', ''checkpoints''] \<mapsto> Link ''/root/checkpoints'') \<and>
   length (new_procs instance_fresh (snd (web instance_fresh))) = 1 \<and>
   length (new_procs instance_dangling (snd (web instance_dangling))) = 0"
proof -
  have home: "environ instance_other ''HOME'' = Some ''/root''"
    by (simp add: instance_other_def)
  have "''HOME'' \<notin> fst ` set fixed_env"
    by (simp add: fixed_env_def)
  with web_frame [of instance_other, THEN conjunct1, rule_format, of "''HOME''"] home
  have kept: "environ (snd (web instance_other)) ''HOME'' = Some ''/root''"
    by simp
  note count = web_frame [THEN conjunct2, THEN conjunct2, THEN conjunct2, THEN conjunct2,
    THEN conjunct2]
  from count [of instance_fresh] have one: "length (new_procs instance_fresh (snd (web instance_fresh))) = 1"
    by (simp add: web_fresh)
  from count [of instance_dangling]
  have none: "length (new_procs instance_dangling (snd (web instance_dangling))) = 0"
    by (simp add: web_dangling)
  have "fs instance_fresh [''root'', ''app'', ''checkpoints''] = None"
    by (simp add: instance_fresh_def)
  with home kept one none show ?thesis
    by (simp add: web_fresh)
qed

section \<open>A dangling alias\<close>

text \<open>
  C9. When the alias path holds a link whose target does not resolve, the existence
  check answers that the path does not exist although it has an entry, \<open>os.symlink\<close>
  raises \<open>FileExistsError\<close>, and the run ends there: no process is spawned and the
  store is as before.
\<close>

theorem dangling_alias_fails:
  assumes "reaches_check w"
    and "fs w (cwd (at_check w) @ [''checkpoints'']) = Some (Link t)"
    and "stat (at_check w) t = Inl e"
  shows "\<not> os_path_exists (at_check w) ''checkpoints'' \<and>
         os_path_lexists (at_check w) ''checkpoints'' \<and>
         os_symlink ''/root/checkpoints'' ''checkpoints'' (at_check w) = (Some FileExistsError, at_check w) \<and>
         web w = (Some FileExistsError, at_check w) \<and>
         new_procs w (snd (web w)) = [] \<and>
         fs (snd (web w)) = fs w"
proof -
  from assms(2) have entry: "fs (at_check w) (cwd (at_check w) @ [''checkpoints'']) = Some (Link t)"
    by (simp add: at_check_fields)
  from entry assms(3) have nex: "\<not> os_path_exists (at_check w) ''checkpoints''"
    by (rule dangling_not_exists)
  from entry have lex: "os_path_lexists (at_check w) ''checkpoints''"
    by (simp add: os_path_lexists_def locate_checkpoints)
  from entry have sym: "os_symlink ''/root/checkpoints'' ''checkpoints'' (at_check w) = (Some FileExistsError, at_check w)"
    by (simp add: symlink_checkpoints)
  from assms(1) nex sym have "web w = (Some FileExistsError, at_check w)"
    by (simp add: web_split drop5)
  with nex lex sym show ?thesis
    by (simp add: new_procs_def at_check_fields)
qed

text \<open>The instance with the alias to the missing \<open>/root/checkpoints\<close>.\<close>

theorem dangling_alias_fails_witness:
  "reaches_check instance_dangling \<and>
   fs instance_dangling (cwd (at_check instance_dangling) @ [''checkpoints'']) =
     Some (Link ''/root/checkpoints'') \<and>
   stat (at_check instance_dangling) ''/root/checkpoints'' = Inl FileNotFoundError \<and>
   web instance_dangling = (Some FileExistsError, at_check instance_dangling) \<and>
   new_procs instance_dangling (snd (web instance_dangling)) = []"
proof -
  have e: "fs instance_dangling (cwd (at_check instance_dangling) @ [''checkpoints'']) =
       Some (Link ''/root/checkpoints'')"
    by (simp add: instances_reach) (simp add: instance_defs)
  from dangling_alias_fails [OF instances_reach(5) e source_missing(2)] e
  show ?thesis
    by (simp add: instances_reach source_missing new_procs_def at_check_fields instance_fields)
qed

section \<open>The snapshot spares the downloaded artifacts\<close>



end
